theory Spec2Isabelle
  imports Complex_Main "HOL-Library.Word" "HOL-Library.Sublist" "HOL-Library.Char_ord"
begin

section \<open>The access-point controller of \<^verbatim>\<open>network/access_point.go\<close>\<close>

text \<open>
  A shallow embedding of the Go file \<^verbatim>\<open>src/network/access_point.go\<close>.

  \<^item> Go strings are byte sequences: \<open>string\<close> (a \<open>char list\<close>, one \<open>char\<close> per byte),
    so \<open>length\<close> is Go's \<^verbatim>\<open>len\<close>.
  \<^item> Go's \<^verbatim>\<open>int\<close> is taken to be 64 bits wide (the \<^verbatim>\<open>intSize == 64\<close> platforms).
    Values that are only stored, compared and printed are \<open>int\<close>; where the code
    computes with them (\<^verbatim>\<open>parseBtu\<close>) the arithmetic is done on \<open>64 word\<close>, so it wraps.
  \<^item> \<^verbatim>\<open>float64\<close> is modelled by \<open>real\<close>: the conversion of an \<^verbatim>\<open>int\<close> and the
    operations \<^verbatim>\<open>*\<close> and \<^verbatim>\<open>/\<close> are exact here, the rounding of IEEE 754 is not
    represented.
  \<^item> The fixed-size arrays \<^verbatim>\<open>[6]T\<close> are lists; an index outside a list is the run-time
    panic of Go, a value of type \<open>panic\<close>.
  \<^item> \<^verbatim>\<open>log.Printf\<close> and \<^verbatim>\<open>time.Sleep\<close> change nothing the program can observe
    and are left out, and with them the local \<^verbatim>\<open>retryCount\<close>, which is only logged.
\<close>

subsection \<open>The library functions the file calls\<close>

subsubsection \<open>\<^verbatim>\<open>strings.Split\<close>, \<^verbatim>\<open>strings.Join\<close>, \<^verbatim>\<open>strings.TrimLeft\<close>, \<^verbatim>\<open>strings.TrimRight\<close>\<close>

text \<open>
  \<^verbatim>\<open>strings.Split(s, sep)\<close> for a non-empty separator: the pieces between the
  occurrences of \<open>sep\<close>, found from the left and not overlapping; one piece more than
  there are occurrences. \<open>cur\<close> holds the current piece, reversed. (An empty separator
  is not used by this file; here it never matches.)
\<close>

fun Split_from :: "string \<Rightarrow> string \<Rightarrow> string \<Rightarrow> string list" where
  "Split_from sep cur [] = [rev cur]"
| "Split_from sep cur (c # cs) =
     (if sep \<noteq> [] \<and> prefix sep (c # cs)
      then rev cur # Split_from sep [] (drop (length sep) (c # cs))
      else Split_from sep (c # cur) cs)"

definition Split :: "string \<Rightarrow> string \<Rightarrow> string list" where
  "Split s sep = Split_from sep [] s"

fun Join :: "string list \<Rightarrow> string \<Rightarrow> string" where
  "Join [] sep = []"
| "Join [x] sep = x"
| "Join (x # y # zs) sep = x @ sep @ Join (y # zs) sep"

text \<open>
  \<^verbatim>\<open>strings.TrimLeft(s, cutset)\<close> and \<^verbatim>\<open>strings.TrimRight(s, cutset)\<close> for a
  cutset of ASCII characters (the file passes \<^verbatim>\<open>"["\<close> and \<^verbatim>\<open>"]"\<close>).
\<close>

definition TrimLeft :: "string \<Rightarrow> string \<Rightarrow> string" where
  "TrimLeft s cutset = dropWhile (\<lambda>c. c \<in> set cutset) s"

definition TrimRight :: "string \<Rightarrow> string \<Rightarrow> string" where
  "TrimRight s cutset = rev (dropWhile (\<lambda>c. c \<in> set cutset) (rev s))"

subsubsection \<open>\<^verbatim>\<open>strings.TrimSpace\<close>\<close>

text \<open>
  \<^verbatim>\<open>strings.TrimSpace\<close> removes the leading and the trailing runes for which
  \<^verbatim>\<open>unicode.IsSpace\<close> holds: U+0009 to U+000D, U+0020, U+0085, U+00A0, U+1680,
  U+2000 to U+200A, U+2028, U+2029, U+202F, U+205F and U+3000. Go decodes UTF-8 and
  accepts only the shortest encoding of a rune, an invalid byte decodes to U+FFFD (not
  a space), so the rune at the start (at the end) of a string is a space exactly when
  one of the encodings below is a prefix (a suffix) of the string.
\<close>

definition spaceEncodings :: "string list" where
  "spaceEncodings =
     [ [CHR 0x09], [CHR 0x0A], [CHR 0x0B], [CHR 0x0C], [CHR 0x0D], [CHR 0x20],
      [CHR 0xC2, CHR 0x85], [CHR 0xC2, CHR 0xA0],
      [CHR 0xE1, CHR 0x9A, CHR 0x80],
      [CHR 0xE2, CHR 0x80, CHR 0x80], [CHR 0xE2, CHR 0x80, CHR 0x81],
      [CHR 0xE2, CHR 0x80, CHR 0x82], [CHR 0xE2, CHR 0x80, CHR 0x83],
      [CHR 0xE2, CHR 0x80, CHR 0x84], [CHR 0xE2, CHR 0x80, CHR 0x85],
      [CHR 0xE2, CHR 0x80, CHR 0x86], [CHR 0xE2, CHR 0x80, CHR 0x87],
      [CHR 0xE2, CHR 0x80, CHR 0x88], [CHR 0xE2, CHR 0x80, CHR 0x89],
      [CHR 0xE2, CHR 0x80, CHR 0x8A],
      [CHR 0xE2, CHR 0x80, CHR 0xA8], [CHR 0xE2, CHR 0x80, CHR 0xA9],
      [CHR 0xE2, CHR 0x80, CHR 0xAF], [CHR 0xE2, CHR 0x81, CHR 0x9F],
      [CHR 0xE3, CHR 0x80, CHR 0x80] ]"

text \<open>The number of bytes of the first of \<open>encs\<close> that \<open>s\<close> starts with; 0 when there is none.\<close>

fun leadingWidth :: "string list \<Rightarrow> string \<Rightarrow> nat" where
  "leadingWidth [] s = 0"
| "leadingWidth (e # encs) s =
     (if e \<noteq> [] \<and> prefix e s then length e else leadingWidth encs s)"

function dropLeading :: "string list \<Rightarrow> string \<Rightarrow> string" where
  "dropLeading encs s =
     (if s = [] \<or> leadingWidth encs s = 0 then s
      else dropLeading encs (drop (leadingWidth encs s) s))"
  by pat_completeness auto
termination
  by (relation "measure (\<lambda>(encs, s). length s)") auto

definition TrimSpace :: "string \<Rightarrow> string" where
  "TrimSpace s =
     rev (dropLeading (map rev spaceEncodings) (rev (dropLeading spaceEncodings s)))"

subsubsection \<open>\<^verbatim>\<open>strconv.Atoi\<close> and \<^verbatim>\<open>strconv.Itoa\<close>\<close>

datatype numError = ErrSyntax | ErrRange

definition isDigit :: "char \<Rightarrow> bool" where
  "isDigit c = (CHR ''0'' \<le> c \<and> c \<le> CHR ''9'')"

definition digitVal :: "char \<Rightarrow> int" where
  "digitVal c = of_char c - 48"

text \<open>
  The loop of \<^verbatim>\<open>strconv.ParseUint(s, 10, 64)\<close>: a byte that is no digit is a syntax
  error; as soon as the number read so far no longer fits 64 bits the loop stops with a
  range error, before it has looked at the bytes that follow. The \<^verbatim>\<open>uint64\<close> that is
  accumulated is an \<open>int\<close> here, never negative.
\<close>

fun parseUintLoop :: "int \<Rightarrow> string \<Rightarrow> numError + int" where
  "parseUintLoop n [] = Inr n"
| "parseUintLoop n (c # cs) =
     (if \<not> isDigit c then Inl ErrSyntax
      else if n * 10 + digitVal c > 2 ^ 64 - 1 then Inl ErrRange
      else parseUintLoop (n * 10 + digitVal c) cs)"

definition ParseUint :: "string \<Rightarrow> numError + int" where
  "ParseUint s = (if s = [] then Inl ErrSyntax else parseUintLoop 0 s)"

text \<open>
  \<^verbatim>\<open>strconv.Atoi\<close> returns a value and an error. On a syntax error the value is 0; on a
  range error it is the largest or the smallest \<^verbatim>\<open>int\<close>. (The fast path of \<^verbatim>\<open>Atoi\<close>
  for strings of fewer than 19 bytes computes the same result.)
\<close>

definition Atoi :: "string \<Rightarrow> int \<times> numError option" where
  "Atoi s =
     (if s = [] then (0, Some ErrSyntax)
      else
        let neg = (hd s = CHR ''-'');
            s' = (if hd s = CHR ''+'' \<or> hd s = CHR ''-'' then tl s else s)
        in case ParseUint s' of
             Inl ErrSyntax \<Rightarrow> (0, Some ErrSyntax)
           | Inl ErrRange \<Rightarrow>
               (if neg then (- (2 ^ 63), Some ErrRange) else (2 ^ 63 - 1, Some ErrRange))
           | Inr un \<Rightarrow>
               if \<not> neg \<and> un \<ge> 2 ^ 63 then (2 ^ 63 - 1, Some ErrRange)
               else if neg \<and> un > 2 ^ 63 then (- (2 ^ 63), Some ErrRange)
               else (if neg then - un else un, None))"

text \<open>\<^verbatim>\<open>strconv.Itoa\<close>, which is also what \<^verbatim>\<open>fmt.Sprintf\<close> prints for \<^verbatim>\<open>%d\<close>.\<close>

definition digitChar :: "nat \<Rightarrow> char" where
  "digitChar d = ''0123456789'' ! (d mod 10)"

function natToDec :: "nat \<Rightarrow> string" where
  "natToDec n =
     (if n < 10 then [digitChar n] else natToDec (n div 10) @ [digitChar (n mod 10)])"
  by pat_completeness auto
termination
  by (relation "measure id") auto

definition Itoa :: "int \<Rightarrow> string" where
  "Itoa i = (if i < 0 then CHR ''-'' # natToDec (nat (- i)) else natToDec (nat i))"

text \<open>A string between two single quotes, as the format strings of the file write it.\<close>

definition quoted :: "string \<Rightarrow> string" where
  "quoted s = [CHR 0x27] @ s @ [CHR 0x27]"

subsection \<open>Data\<close>

text \<open>
  \<^verbatim>\<open>model.Team\<close> is declared outside this file; the code reads its fields \<^verbatim>\<open>Id\<close>
  and \<^verbatim>\<open>WpaKey\<close> only. A \<^verbatim>\<open>*model.Team\<close> is a \<open>Team option\<close>, \<open>None\<close> for \<^verbatim>\<open>nil\<close>.
\<close>

record Team =
  Id_team :: int
  WpaKey :: string

datatype panic = IndexOutOfRange nat nat

text \<open>
  The errors of the file are made with \<^verbatim>\<open>fmt.Errorf\<close>; each constructor stands for one
  of its messages and carries the values the message prints. \<open>TransportError\<close> is any
  error of \<^verbatim>\<open>runCommand\<close>.
\<close>

datatype error =
    TransportError string
  | InvalidPosition int
  | InvalidCredential string int
  | MalformedStatus nat
  | QueueFull
  | WifiInfoError error
  | BtuInfoError error

record TeamWifiStatus =
  TeamId :: int
  RadioLinked :: bool
  MBits :: real

text \<open>
  The struct \<^verbatim>\<open>AccessPoint\<close>. The channel \<^verbatim>\<open>configRequestChan\<close> is \<open>None\<close> while it
  is \<^verbatim>\<open>nil\<close> and otherwise the requests it buffers, oldest first. \<open>commandLog\<close> is not a
  field of the struct: it records, in order, every command that was passed to
  \<^verbatim>\<open>runCommand\<close>.
\<close>

record AccessPoint =
  isVividType :: bool
  address :: string
  username :: string
  password :: string
  teamChannel :: int
  networkSecurityEnabled :: bool
  configRequestChan :: "Team option list list option"
  TeamWifiStatuses :: "TeamWifiStatus list"
  initialStatusesFetched :: bool
  commandLog :: "string list"

definition accessPointRequestBufferSize :: nat where
  "accessPointRequestBufferSize = 10"

definition index :: "'a list \<Rightarrow> nat \<Rightarrow> panic + 'a" where
  "index xs i = (if i < length xs then Inr (xs ! i) else Inl (IndexOutOfRange i (length xs)))"

text \<open>Sequencing of steps that may panic: the first panic ends the computation.\<close>

definition andThen :: "panic + 'a \<Rightarrow> ('a \<Rightarrow> panic + 'b) \<Rightarrow> panic + 'b" where
  "andThen r f = (case r of Inl p \<Rightarrow> Inl p | Inr x \<Rightarrow> f x)"

subsection \<open>\<^verbatim>\<open>generateTeamAccessPointConfig\<close>\<close>

text \<open>
  The lines 265 to 274 of the function: the command list for a network name and a key,
  joined with newlines.
\<close>

definition teamCommands :: "AccessPoint \<Rightarrow> int \<Rightarrow> string \<Rightarrow> string \<Rightarrow> string" where
  "teamCommands ap position ssid key =
     (let commands =
            [''set wireless.@wifi-iface['' @ Itoa position @ ''].disabled='' @ quoted ''0'',
             ''set wireless.@wifi-iface['' @ Itoa position @ ''].ssid='' @ quoted ssid,
             ''set wireless.@wifi-iface['' @ Itoa position @ ''].key='' @ quoted key];
          commands' =
            (if isVividType ap
             then commands @
               [''set wireless.@wifi-iface['' @ Itoa position @ ''].sae_password='' @ quoted key]
             else commands)
      in Join commands' [CHR 0x0A])"

definition generateTeamAccessPointConfig ::
  "AccessPoint \<Rightarrow> Team option \<Rightarrow> int \<Rightarrow> string \<times> error option" where
  "generateTeamAccessPointConfig ap team position =
     (if position < 1 \<or> position > 6 then ([], Some (InvalidPosition position))
      else
        case team of
          None \<Rightarrow>
            (teamCommands ap position (''no-team-'' @ Itoa position) (''no-team-'' @ Itoa position),
             None)
        | Some t \<Rightarrow>
            if length (WpaKey t) < 8 \<or> length (WpaKey t) > 63
            then ([], Some (InvalidCredential (WpaKey t) (Id_team t)))
            else (teamCommands ap position (Itoa (Id_team t)) (WpaKey t), None))"

definition addConfigurationHeader :: "string \<Rightarrow> string" where
  "addConfigurationHeader commandList =
     ''uci batch <<ENDCONFIG'' @ [CHR 0x0A] @ commandList @ [CHR 0x0A] @ ''ENDCONFIG'' @ [CHR 0x0A]"

subsection \<open>\<^verbatim>\<open>decodeWifiInfo\<close>\<close>

text \<open>
  The two regular expressions of \<^verbatim>\<open>decodeWifiInfo\<close> are
  \<^verbatim>\<open>ESSID: "([-\w ]*)"\<close> and \<^verbatim>\<open>Link Quality: ([-\w ]+)/([-\w ]+)\<close>.
  The class \<^verbatim>\<open>[-\w ]\<close> holds the hyphen, the space and the ASCII word characters
  (\<^verbatim>\<open>\w\<close> is \<^verbatim>\<open>[0-9A-Za-z_]\<close> in Go). All its members and all the literal
  characters are ASCII, so matching bytes is matching runes.
\<close>

definition isWordChar :: "char \<Rightarrow> bool" where
  "isWordChar c =
     ((CHR ''0'' \<le> c \<and> c \<le> CHR ''9'') \<or> (CHR ''A'' \<le> c \<and> c \<le> CHR ''Z'') \<or>
      (CHR ''a'' \<le> c \<and> c \<le> CHR ''z'') \<or> c = CHR ''_'')"

definition isNameChar :: "char \<Rightarrow> bool" where
  "isNameChar c = (c = CHR ''-'' \<or> isWordChar c \<or> c = CHR '' '')"

text \<open>
  A match of the first expression at the start of \<open>s\<close>: the literal, then the longest
  run of class characters, then a double quote. The quote is not in the class, so no
  shorter run can be followed by it and the greedy star has one way to match. The
  result is the matched text and the list of its groups.
\<close>

definition essidLiteral :: string where
  "essidLiteral = ''ESSID: '' @ [CHR 0x22]"

definition matchEssid :: "string \<Rightarrow> (string \<times> string list) option" where
  "matchEssid s =
     (if prefix essidLiteral s then
        let t = drop (length essidLiteral) s;
            name = takeWhile isNameChar t
        in case dropWhile isNameChar t of
             [] \<Rightarrow> None
           | c # rest \<Rightarrow>
               if c = CHR 0x22 then Some (essidLiteral @ name @ [CHR 0x22], [name]) else None
      else None)"

text \<open>
  A match of the second expression at the start of \<open>s\<close>: the literal, the longest
  non-empty run of class characters, a slash (not in the class, so the first run has
  one way to match), and the longest non-empty run of class characters, which is what
  the greedy plus takes.
\<close>

definition linkQualityLiteral :: string where
  "linkQualityLiteral = ''Link Quality: ''"

definition matchLinkQuality :: "string \<Rightarrow> (string \<times> string list) option" where
  "matchLinkQuality s =
     (if prefix linkQualityLiteral s then
        let t = drop (length linkQualityLiteral) s;
            numerator = takeWhile isNameChar t
        in if numerator = [] then None
           else case dropWhile isNameChar t of
                  [] \<Rightarrow> None
                | c # rest \<Rightarrow>
                    if c = CHR ''/'' then
                      let denominator = takeWhile isNameChar rest
                      in if denominator = [] then None
                         else Some (linkQualityLiteral @ numerator @ ''/'' @ denominator,
                                    [numerator, denominator])
                    else None
      else None)"

text \<open>
  \<^verbatim>\<open>FindAllStringSubmatch(s, -1)\<close>: the leftmost match, then the leftmost match in
  what follows it, and so on; each match is the list of the matched text and its
  groups. Both expressions match at least their literal, never the empty string.
\<close>

function FindAllStringSubmatch ::
  "(string \<Rightarrow> (string \<times> string list) option) \<Rightarrow> string \<Rightarrow> string list list" where
  "FindAllStringSubmatch re s =
     (if s = [] then []
      else case re s of
             None \<Rightarrow> FindAllStringSubmatch re (tl s)
           | Some (whole, groups) \<Rightarrow>
               (whole # groups) # FindAllStringSubmatch re (drop (max 1 (length whole)) s))"
  by pat_completeness auto
termination
  by (relation "measure (\<lambda>(re, s). length s)") auto

text \<open>
  The loop \<^verbatim>\<open>for i := range statuses\<close>, from index \<open>i\<close> on; \<open>statuses\<close> are the
  records not yet visited.
\<close>

fun decodeLoop ::
  "string list list \<Rightarrow> string list list \<Rightarrow> nat \<Rightarrow> TeamWifiStatus list \<Rightarrow>
   panic + TeamWifiStatus list" where
  "decodeLoop ssids linkQualities i [] = Inr []"
| "decodeLoop ssids linkQualities i (status # statuses) =
     andThen (index ssids i) (\<lambda>ssidMatch.
     andThen (index ssidMatch 1) (\<lambda>ssid.
     andThen (index linkQualities i) (\<lambda>linkQualityMatch.
     andThen (index linkQualityMatch 1) (\<lambda>linkQualityNumerator.
     andThen (decodeLoop ssids linkQualities (Suc i) statuses) (\<lambda>statuses'.
       Inr (status\<lparr>TeamId := fst (Atoi ssid),
                    RadioLinked := (linkQualityNumerator \<noteq> ''unknown'')\<rparr> # statuses'))))))"

text \<open>
  The function returns the status records as it leaves them, with the error
  (\<open>None\<close> for \<^verbatim>\<open>nil\<close>); \<open>MalformedStatus\<close> carries the number of names found, which
  the message prints.
\<close>

definition decodeWifiInfo ::
  "string \<Rightarrow> TeamWifiStatus list \<Rightarrow> panic + (TeamWifiStatus list \<times> error option)" where
  "decodeWifiInfo wifiInfo statuses =
     (let ssids = FindAllStringSubmatch matchEssid wifiInfo;
          linkQualities = FindAllStringSubmatch matchLinkQuality wifiInfo
      in if length ssids < 6 \<or> length linkQualities < 6
         then Inr (statuses, Some (MalformedStatus (length ssids)))
         else case decodeLoop ssids linkQualities 0 statuses of
                Inl p \<Rightarrow> Inl p
              | Inr statuses' \<Rightarrow> Inr (statuses', None))"

subsection \<open>\<^verbatim>\<open>parseBtu\<close>\<close>

text \<open>
  \<^verbatim>\<open>rXBytes-rXBytesOld+tXBytes-tXBytesOld\<close> in Go's wrapping \<^verbatim>\<open>int\<close> arithmetic.
\<close>

definition byteDelta :: "int \<Rightarrow> int \<Rightarrow> int \<Rightarrow> int \<Rightarrow> int" where
  "byteDelta rXBytes rXBytesOld tXBytes tXBytesOld =
     sint (word_of_int rXBytes - word_of_int rXBytesOld
           + word_of_int tXBytes - word_of_int tXBytesOld :: 64 word)"

text \<open>The fields of one line: space, then leading \<^verbatim>\<open>[\<close>, then trailing \<^verbatim>\<open>]\<close> trimmed, split at commas.\<close>

definition counters :: "string \<Rightarrow> string list" where
  "counters line = Split (TrimRight (TrimLeft (TrimSpace line) ''['') '']'') '',''"

definition parseBtu :: "string \<Rightarrow> panic + real" where
  "parseBtu response =
     (let lines = Split response ''],''
      in if length lines > 6 then
           let fiveCnt = counters (lines ! (length lines - 6));
               lastCnt = counters (lines ! (length lines - 1))
           in andThen (index lastCnt 1) (\<lambda>rx.
              andThen (index lastCnt 3) (\<lambda>tx.
              andThen (index fiveCnt 1) (\<lambda>rxOld.
              andThen (index fiveCnt 3) (\<lambda>txOld.
                let rXBytes = fst (Atoi (TrimSpace rx));
                    tXBytes = fst (Atoi (TrimSpace tx));
                    rXBytesOld = fst (Atoi (TrimSpace rxOld));
                    tXBytesOld = fst (Atoi (TrimSpace txOld))
                in Inr (real_of_int (byteDelta rXBytes rXBytesOld tXBytes tXBytesOld)
                        * 0.000008 / 5.0)))))
         else Inr 0)"

subsection \<open>The controller\<close>

text \<open>
  \<^verbatim>\<open>runCommand\<close> talks to the access point over SSH. The remote side is a parameter
  \<open>dev\<close>: given the commands passed to \<^verbatim>\<open>runCommand\<close> so far and the command, it
  answers with the output or with an error (no connection, no session, a failing
  command, the timeout). Every caller ignores the output when there is an error.
\<close>

type_synonym device = "string list \<Rightarrow> string \<Rightarrow> error + string"

definition runCommand :: "device \<Rightarrow> AccessPoint \<Rightarrow> string \<Rightarrow> AccessPoint \<times> (error + string)" where
  "runCommand dev ap command =
     (ap\<lparr>commandLog := commandLog ap @ [command]\<rparr>, dev (commandLog ap) command)"

text \<open>
  How a method of the controller ends: it returns, with the state it leaves and its
  result; or it panics; or the fuel given to an unbounded loop runs out while it is
  still running; or it waits for ever on an empty channel. Each carries the state
  reached.
\<close>

datatype 'a outcome =
    Returns AccessPoint 'a
  | Panics AccessPoint panic
  | OutOfFuel AccessPoint
  | Blocks AccessPoint

fun stateOf :: "'a outcome \<Rightarrow> AccessPoint" where
  "stateOf (Returns ap x) = ap"
| "stateOf (Panics ap p) = ap"
| "stateOf (OutOfFuel ap) = ap"
| "stateOf (Blocks ap) = ap"

definition next_step :: "'a outcome \<Rightarrow> (AccessPoint \<Rightarrow> 'a \<Rightarrow> 'b outcome) \<Rightarrow> 'b outcome" where
  "next_step r f =
     (case r of
        Returns ap x \<Rightarrow> f ap x
      | Panics ap p \<Rightarrow> Panics ap p
      | OutOfFuel ap \<Rightarrow> OutOfFuel ap
      | Blocks ap \<Rightarrow> Blocks ap)"

text \<open>The zero value of the struct, which is what a new \<^verbatim>\<open>AccessPoint\<close> is.\<close>

definition zeroTeamWifiStatus :: TeamWifiStatus where
  "zeroTeamWifiStatus = \<lparr>TeamId = 0, RadioLinked = False, MBits = 0\<rparr>"

definition zeroAccessPoint :: AccessPoint where
  "zeroAccessPoint =
     \<lparr>isVividType = False, address = [], username = [], password = [], teamChannel = 0,
      networkSecurityEnabled = False, configRequestChan = None,
      TeamWifiStatuses = replicate 6 zeroTeamWifiStatus,
      initialStatusesFetched = False, commandLog = []\<rparr>"

definition SetSettings ::
  "bool \<Rightarrow> string \<Rightarrow> string \<Rightarrow> string \<Rightarrow> int \<Rightarrow> bool \<Rightarrow> AccessPoint \<Rightarrow> AccessPoint" where
  "SetSettings isVividType' address' username' password' teamChannel' networkSecurityEnabled' ap =
     (let ap1 = ap\<lparr>isVividType := isVividType', address := address', username := username',
                     password := password', teamChannel := teamChannel',
                     networkSecurityEnabled := networkSecurityEnabled'\<rparr>
      in if configRequestChan ap1 = None then ap1\<lparr>configRequestChan := Some []\<rparr> else ap1)"

definition ConfigureAdminSettings :: "device \<Rightarrow> AccessPoint \<Rightarrow> AccessPoint \<times> error option" where
  "ConfigureAdminSettings dev ap =
     (if \<not> networkSecurityEnabled ap then (ap, None)
      else
        let commands =
              [''set wireless.radio0.channel='' @ quoted (Itoa (teamChannel ap)),
               ''commit wireless''];
            command = ''uci batch <<ENDCONFIG && wifi radio0'' @ [CHR 0x0A]
                      @ Join commands [CHR 0x0A] @ [CHR 0x0A] @ ''ENDCONFIG'' @ [CHR 0x0A];
            (ap', result) = runCommand dev ap command
        in case result of Inl err \<Rightarrow> (ap', Some err) | Inr output \<Rightarrow> (ap', None))"

text \<open>
  The \<^verbatim>\<open>select\<close> with a \<^verbatim>\<open>default\<close> branch: the send is taken when the channel can
  accept it at once, that is when the channel is not \<^verbatim>\<open>nil\<close> and its buffer is not
  full; otherwise the default branch is.
\<close>

definition ConfigureTeamWifi :: "AccessPoint \<Rightarrow> Team option list \<Rightarrow> AccessPoint \<times> error option" where
  "ConfigureTeamWifi ap teams =
     (case configRequestChan ap of
        None \<Rightarrow> (ap, Some QueueFull)
      | Some queue \<Rightarrow>
          if length queue < accessPointRequestBufferSize
          then (ap\<lparr>configRequestChan := Some (queue @ [teams])\<rparr>, None)
          else (ap, Some QueueFull))"

text \<open>The loop \<^verbatim>\<open>for i, team := range teams\<close> of \<^verbatim>\<open>configIsCorrectForTeams\<close>, from index \<open>i\<close> on.\<close>

fun teamIdsMatch :: "TeamWifiStatus list \<Rightarrow> nat \<Rightarrow> Team option list \<Rightarrow> panic + bool" where
  "teamIdsMatch statuses i [] = Inr True"
| "teamIdsMatch statuses i (team # teams) =
     andThen (index statuses i) (\<lambda>status.
       let expectedTeamId = (case team of None \<Rightarrow> 0 | Some t \<Rightarrow> Id_team t)
       in if TeamId status \<noteq> expectedTeamId then Inr False
          else teamIdsMatch statuses (Suc i) teams)"

definition configIsCorrectForTeams :: "AccessPoint \<Rightarrow> Team option list \<Rightarrow> panic + bool" where
  "configIsCorrectForTeams ap teams =
     (if \<not> initialStatusesFetched ap then Inr False
      else teamIdsMatch (TeamWifiStatuses ap) 0 teams)"

definition updateTeamWifiStatuses :: "device \<Rightarrow> AccessPoint \<Rightarrow> error option outcome" where
  "updateTeamWifiStatuses dev ap =
     (if \<not> networkSecurityEnabled ap then Returns ap None
      else
        let (ap1, result) = runCommand dev ap ''iwinfo''
        in case result of
             Inl err \<Rightarrow> Returns ap1 (Some (WifiInfoError err))
           | Inr output \<Rightarrow>
               (case decodeWifiInfo output (TeamWifiStatuses ap1) of
                  Inl p \<Rightarrow> Panics ap1 p
                | Inr (statuses', Some err) \<Rightarrow>
                    Returns (ap1\<lparr>TeamWifiStatuses := statuses'\<rparr>) (Some (WifiInfoError err))
                | Inr (statuses', None) \<Rightarrow>
                    (let ap2 = ap1\<lparr>TeamWifiStatuses := statuses'\<rparr>
                     in if \<not> initialStatusesFetched ap2
                        then Returns (ap2\<lparr>initialStatusesFetched := True\<rparr>) None
                        else Returns ap2 None)))"

text \<open>The loop of \<^verbatim>\<open>updateTeamWifiBTU\<close> over the indices of the status array.\<close>

fun btuLoop :: "device \<Rightarrow> string list \<Rightarrow> nat list \<Rightarrow> AccessPoint \<Rightarrow> error option outcome" where
  "btuLoop dev infWifi [] ap = Returns ap None"
| "btuLoop dev infWifi (i # rest) ap =
     (case index infWifi i of
        Inl p \<Rightarrow> Panics ap p
      | Inr ifname \<Rightarrow>
          (let (ap1, result) = runCommand dev ap (''luci-bwc -i ath'' @ ifname)
           in case result of
                Inl err \<Rightarrow> Returns ap1 (Some (BtuInfoError err))
              | Inr output \<Rightarrow>
                  (case parseBtu output of
                     Inl p \<Rightarrow> Panics ap1 p
                   | Inr btu \<Rightarrow>
                       btuLoop dev infWifi rest
                         (ap1\<lparr>TeamWifiStatuses :=
                                (TeamWifiStatuses ap1)
                                  [i := (TeamWifiStatuses ap1 ! i)\<lparr>MBits := btu\<rparr>]\<rparr>))))"

definition updateTeamWifiBTU :: "device \<Rightarrow> AccessPoint \<Rightarrow> error option outcome" where
  "updateTeamWifiBTU dev ap =
     (if \<not> networkSecurityEnabled ap then Returns ap None
      else
        let infWifi =
              (if isVividType ap then [''1'', ''11'', ''12'', ''13'', ''14'', ''15'']
               else [''0'', ''0-1'', ''0-2'', ''0-3'', ''0-4'', ''0-5''])
        in btuLoop dev infWifi [0 ..< length (TeamWifiStatuses ap)] ap)"

text \<open>
  \<^verbatim>\<open>configureTeams\<close>: the inner and the outer loop as one recursion. With \<open>teamIndex < 6\<close> a
  step is one pass of the inner loop (a failed command keeps \<open>teamIndex\<close>, the
  \<^verbatim>\<open>continue\<close>); with \<open>teamIndex = 6\<close> it is the commit, the reload and the check at the
  end of a pass of the outer loop. Neither loop is bounded in the source; \<open>fuel\<close>
  bounds the number of steps here.
\<close>

fun configureTeamsLoop ::
  "device \<Rightarrow> nat \<Rightarrow> Team option list \<Rightarrow> nat \<Rightarrow> AccessPoint \<Rightarrow> unit outcome" where
  "configureTeamsLoop dev 0 teams teamIndex ap = OutOfFuel ap"
| "configureTeamsLoop dev (Suc fuel) teams teamIndex ap =
     (if teamIndex < 6 then
        (case index teams teamIndex of
           Inl p \<Rightarrow> Panics ap p
         | Inr team \<Rightarrow>
             (let config = fst (generateTeamAccessPointConfig ap team (int teamIndex + 1));
                  command = addConfigurationHeader config;
                  (ap1, result) = runCommand dev ap command
              in case result of
                   Inl err \<Rightarrow> configureTeamsLoop dev fuel teams teamIndex ap1
                 | Inr output \<Rightarrow> configureTeamsLoop dev fuel teams (teamIndex + 1) ap1))
      else
        (let ap1 = fst (runCommand dev ap ''uci commit wireless'');
             ap2 = fst (runCommand dev ap1 ''wifi reload'')
         in next_step (updateTeamWifiStatuses dev ap2) (\<lambda>ap3 err.
              if err \<noteq> None then configureTeamsLoop dev fuel teams 0 ap3
              else (case configIsCorrectForTeams ap3 teams of
                      Inl p \<Rightarrow> Panics ap3 p
                    | Inr correct \<Rightarrow>
                        if correct then Returns ap3 ()
                        else configureTeamsLoop dev fuel teams 0 ap3))))"

definition configureTeams :: "device \<Rightarrow> nat \<Rightarrow> AccessPoint \<Rightarrow> Team option list \<Rightarrow> unit outcome" where
  "configureTeams dev fuel ap teams = configureTeamsLoop dev fuel teams 0 ap"

definition handleTeamWifiConfiguration ::
  "device \<Rightarrow> nat \<Rightarrow> AccessPoint \<Rightarrow> Team option list \<Rightarrow> unit outcome" where
  "handleTeamWifiConfiguration dev fuel ap teams =
     (if \<not> networkSecurityEnabled ap then Returns ap ()
      else
        next_step (updateTeamWifiStatuses dev ap) (\<lambda>ap1 err.
          case (if err \<noteq> None then Inr False else configIsCorrectForTeams ap1 teams) of
            Inl p \<Rightarrow> Panics ap1 p
          | Inr correct \<Rightarrow>
              if correct then Returns ap1 ()
              else if \<not> isVividType ap1 then
                next_step (configureTeams dev fuel ap1 [None, None, None, None, None, None])
                  (\<lambda>ap2 u. configureTeams dev fuel ap2 teams)
              else configureTeams dev fuel ap1 teams))"

text \<open>
  One pass of the loop of \<^verbatim>\<open>Run\<close>. A receive from the channel takes the oldest
  request; on an empty or \<^verbatim>\<open>nil\<close> channel it would wait. \<open>drain\<close> is the loop that
  receives \<open>numExtraRequests\<close> more requests. When the channel holds a request the
  \<^verbatim>\<open>select\<close> takes it; when it holds none, and none arrives within the poll period,
  the timer branch runs. A request that arrives while the loop waits is a queue that
  holds this request at the start of the pass.
\<close>

definition receive :: "'a list \<Rightarrow> ('a \<times> 'a list) option" where
  "receive queue = (case queue of [] \<Rightarrow> None | x # rest \<Rightarrow> Some (x, rest))"

fun drain :: "nat \<Rightarrow> 'a \<Rightarrow> 'a list \<Rightarrow> ('a \<times> 'a list) option" where
  "drain 0 request queue = Some (request, queue)"
| "drain (Suc n) request queue =
     (case receive queue of None \<Rightarrow> None | Some (request', queue') \<Rightarrow> drain n request' queue')"

definition RunIteration :: "device \<Rightarrow> nat \<Rightarrow> AccessPoint \<Rightarrow> unit outcome" where
  "RunIteration dev fuel ap =
     (case (case configRequestChan ap of None \<Rightarrow> None | Some queue \<Rightarrow> receive queue) of
        Some (request, queue) \<Rightarrow>
          (let numExtraRequests = length queue
           in case drain numExtraRequests request queue of
                None \<Rightarrow> Blocks (ap\<lparr>configRequestChan := Some []\<rparr>)
              | Some (latest, queue') \<Rightarrow>
                  handleTeamWifiConfiguration dev fuel
                    (ap\<lparr>configRequestChan := Some queue'\<rparr>) latest)
      | None \<Rightarrow>
          next_step (updateTeamWifiStatuses dev ap) (\<lambda>ap1 err1.
          next_step (updateTeamWifiBTU dev ap1) (\<lambda>ap2 err2. Returns ap2 ())))"

text \<open>The methods of the controller as operations, and runs of them one after the other.\<close>

datatype operation =
    OpSetSettings bool string string string int bool
  | OpConfigureAdminSettings
  | OpConfigureTeamWifi "Team option list"
  | OpRunIteration
  | OpHandleTeamWifiConfiguration "Team option list"
  | OpConfigureTeams "Team option list"
  | OpUpdateTeamWifiStatuses
  | OpUpdateTeamWifiBTU

fun isSetSettings :: "operation \<Rightarrow> bool" where
  "isSetSettings (OpSetSettings v a u p c e) = True"
| "isSetSettings other = False"

fun perform :: "device \<Rightarrow> nat \<Rightarrow> operation \<Rightarrow> AccessPoint \<Rightarrow> unit outcome" where
  "perform dev fuel (OpSetSettings v a u p c e) ap = Returns (SetSettings v a u p c e ap) ()"
| "perform dev fuel OpConfigureAdminSettings ap = Returns (fst (ConfigureAdminSettings dev ap)) ()"
| "perform dev fuel (OpConfigureTeamWifi teams) ap = Returns (fst (ConfigureTeamWifi ap teams)) ()"
| "perform dev fuel OpRunIteration ap = RunIteration dev fuel ap"
| "perform dev fuel (OpHandleTeamWifiConfiguration teams) ap =
     handleTeamWifiConfiguration dev fuel ap teams"
| "perform dev fuel (OpConfigureTeams teams) ap = configureTeams dev fuel ap teams"
| "perform dev fuel OpUpdateTeamWifiStatuses ap =
     next_step (updateTeamWifiStatuses dev ap) (\<lambda>ap' err. Returns ap' ())"
| "perform dev fuel OpUpdateTeamWifiBTU ap =
     next_step (updateTeamWifiBTU dev ap) (\<lambda>ap' err. Returns ap' ())"

fun execute :: "device \<Rightarrow> nat \<Rightarrow> operation list \<Rightarrow> AccessPoint \<Rightarrow> unit outcome" where
  "execute dev fuel [] ap = Returns ap ()"
| "execute dev fuel (op # ops) ap =
     next_step (perform dev fuel op ap) (\<lambda>ap' u. execute dev fuel ops ap')"

subsection \<open>A frame condition and sample data\<close>

text \<open>
  What every method other than \<^verbatim>\<open>SetSettings\<close> keeps: a flag that is set stays set, and
  a channel that is \<^verbatim>\<open>nil\<close> stays \<^verbatim>\<open>nil\<close>.
\<close>

definition keeps :: "AccessPoint \<Rightarrow> AccessPoint \<Rightarrow> bool" where
  "keeps ap ap' \<longleftrightarrow>
     (initialStatusesFetched ap \<longrightarrow> initialStatusesFetched ap') \<and>
     (configRequestChan ap = None \<longrightarrow> configRequestChan ap' = None)"


text \<open>
  An access point that cannot be reached, and one that answers \<^verbatim>\<open>iwinfo\<close> with six
  networks: team 254 linked on the first, the placeholders on the others.
\<close>

definition deadDevice :: device where
  "deadDevice = (\<lambda>log command. Inl (TransportError ''unreachable''))"

definition iwinfoBlock :: "string \<Rightarrow> string \<Rightarrow> string" where
  "iwinfoBlock name quality =
     ''wlan0 ESSID: '' @ [CHR 0x22] @ name @ [CHR 0x22, CHR 0x0A] @
     '' Link Quality: '' @ quality @ ''/70'' @ [CHR 0x0A]"

definition sampleIwinfo :: string where
  "sampleIwinfo =
     iwinfoBlock ''254'' ''60'' @ iwinfoBlock ''no-team-2'' ''unknown'' @
     iwinfoBlock ''no-team-3'' ''unknown'' @ iwinfoBlock ''no-team-4'' ''unknown'' @
     iwinfoBlock ''no-team-5'' ''unknown'' @ iwinfoBlock ''no-team-6'' ''unknown''"

definition sampleDevice :: device where
  "sampleDevice = (\<lambda>log command. if command = ''iwinfo'' then Inr sampleIwinfo else Inr [])"



definition team254 :: Team where
  "team254 = \<lparr>Id_team = 254, WpaKey = ''12345678''\<rparr>"

definition noTeams :: "Team option list" where
  "noTeams = [None, None, None, None, None, None]"

definition teamsA :: "Team option list" where
  "teamsA = [Some team254, None, None, None, None, None]"

definition teamsB :: "Team option list" where
  "teamsB = [None, Some team254, None, None, None, None]"

definition teamsC :: "Team option list" where
  "teamsC = [None, None, Some team254, None, None, None]"

text \<open>
  What it is for \<open>whole\<close> to match one of the two regular expressions at the start of
  \<open>s\<close>, with the given groups: the literal, the runs of class characters and the
  quote or the slash between them. The matchers above are compared with it below.
\<close>

definition essidMatchAt :: "string \<Rightarrow> string \<Rightarrow> string \<Rightarrow> bool" where
  "essidMatchAt s whole name \<longleftrightarrow>
     list_all isNameChar name \<and> whole = essidLiteral @ name @ [CHR 0x22] \<and> prefix whole s"

definition linkQualityMatchAt :: "string \<Rightarrow> string \<Rightarrow> string \<Rightarrow> string \<Rightarrow> bool" where
  "linkQualityMatchAt s whole numerator denominator \<longleftrightarrow>
     numerator \<noteq> [] \<and> denominator \<noteq> [] \<and>
     list_all isNameChar numerator \<and> list_all isNameChar denominator \<and>
     whole = linkQualityLiteral @ numerator @ ''/'' @ denominator \<and> prefix whole s"








text \<open>
  Output of \<^verbatim>\<open>luci-bwc\<close>: one sample a line, \<^verbatim>\<open>[ time, rx bytes, rx packets, tx bytes, tx packets ]\<close>,
  the lines separated by a comma and a newline. \<open>sampleDump\<close> has seven samples;
  \<open>truncatedDump\<close> is the same output cut off inside its last line.
\<close>

definition bwcLine :: "string \<Rightarrow> string \<Rightarrow> string \<Rightarrow> string" where
  "bwcLine t rx tx = ''[ '' @ t @ '', '' @ rx @ '', 177, '' @ tx @ '', 865 ]''"


definition truncatedDump :: string where
  "truncatedDump =
     bwcLine ''1687496957'' ''26000'' ''71000'' @ '','' @ [CHR 0x0A] @
     bwcLine ''1687496958'' ''26100'' ''71000'' @ '','' @ [CHR 0x0A] @
     bwcLine ''1687496959'' ''26200'' ''71000'' @ '','' @ [CHR 0x0A] @
     bwcLine ''1687496960'' ''26300'' ''71000'' @ '','' @ [CHR 0x0A] @
     bwcLine ''1687496961'' ''26400'' ''71000'' @ '','' @ [CHR 0x0A] @
     bwcLine ''1687496962'' ''26500'' ''71000'' @ '','' @ [CHR 0x0A] @
     ''[ 1687496963, 266''"





text \<open>An \<^verbatim>\<open>iwinfo\<close> output with five networks only, and one whose first name is a number of twenty digits.\<close>

definition shortIwinfo :: string where
  "shortIwinfo =
     iwinfoBlock ''254'' ''60'' @ iwinfoBlock ''no-team-2'' ''unknown'' @
     iwinfoBlock ''no-team-3'' ''unknown'' @ iwinfoBlock ''no-team-4'' ''unknown'' @
     iwinfoBlock ''no-team-5'' ''unknown''"


section \<open>Properties\<close>

subsection \<open>Auxiliary facts about the controller\<close>

lemma keeps_refl: "keeps ap ap"
  by (simp add: keeps_def)

lemma keeps_trans: "keeps a b \<Longrightarrow> keeps b c \<Longrightarrow> keeps a c"
  by (simp add: keeps_def)

lemma keeps_next_step:
  assumes "keeps ap (stateOf r)"
    and "\<And>ap' x. r = Returns ap' x \<Longrightarrow> keeps ap' (stateOf (f ap' x))"
  shows "keeps ap (stateOf (next_step r f))"
proof (cases r)
  case (Returns ap' x)
  with assms have "keeps ap ap'" and "keeps ap' (stateOf (f ap' x))" by simp_all
  then show ?thesis using Returns by (simp add: next_step_def keeps_trans [of ap ap'])
qed (use assms(1) in \<open>simp_all add: next_step_def\<close>)

lemma keeps_runCommand: "keeps ap (fst (runCommand dev ap c))"
  by (simp add: runCommand_def keeps_def)

lemma keeps_updateTeamWifiStatuses: "keeps ap (stateOf (updateTeamWifiStatuses dev ap))"
  by (auto simp: updateTeamWifiStatuses_def runCommand_def keeps_def Let_def
      split: sum.splits prod.splits option.splits)

lemma keeps_btuLoop: "keeps ap (stateOf (btuLoop dev infWifi is ap))"
proof (induction "is" arbitrary: ap)
  case Nil
  show ?case by (simp add: keeps_refl)
next
  case (Cons i rest)
  show ?case
  proof (cases "index infWifi i")
    case (Inl p)
    then show ?thesis by (simp add: keeps_refl)
  next
    case (Inr ifname)
    obtain ap1 result where rc: "runCommand dev ap (''luci-bwc -i ath'' @ ifname) = (ap1, result)"
      by (cases "runCommand dev ap (''luci-bwc -i ath'' @ ifname)")
    have k1: "keeps ap ap1" using keeps_runCommand [of ap dev "''luci-bwc -i ath'' @ ifname"] rc by simp
    show ?thesis
    proof (cases result)
      case (Inl err)
      then show ?thesis using Inr rc k1 by simp
    next
      case out: (Inr resp)
      show ?thesis
      proof (cases "parseBtu resp")
        case (Inl p)
        then show ?thesis using Inr rc k1 out by simp
      next
        case btu: (Inr btu)
        let ?ap2 = "ap1\<lparr>TeamWifiStatuses := (TeamWifiStatuses ap1)[i := (TeamWifiStatuses ap1 ! i)\<lparr>MBits := btu\<rparr>]\<rparr>"
        have "keeps ap1 ?ap2" by (simp add: keeps_def)
        with k1 have "keeps ap ?ap2" by (rule keeps_trans)
        then have "keeps ap (stateOf (btuLoop dev infWifi rest ?ap2))"
          using Cons.IH [of ?ap2] keeps_trans by blast
        then show ?thesis using Inr rc out btu by simp
      qed
    qed
  qed
qed

lemma keeps_updateTeamWifiBTU: "keeps ap (stateOf (updateTeamWifiBTU dev ap))"
  by (simp add: updateTeamWifiBTU_def keeps_refl keeps_btuLoop)

lemma keeps_configureTeamsLoop:
  "keeps ap (stateOf (configureTeamsLoop dev fuel teams teamIndex ap))"
proof (induction fuel arbitrary: teamIndex ap)
  case 0
  show ?case by (simp add: keeps_refl)
next
  case (Suc fuel)
  show ?case
  proof (cases "teamIndex < 6")
    case True
    show ?thesis
    proof (cases "index teams teamIndex")
      case (Inl p)
      then show ?thesis using True by (simp add: keeps_refl)
    next
      case (Inr team)
      let ?c = "addConfigurationHeader (fst (generateTeamAccessPointConfig ap team (int teamIndex + 1)))"
      obtain ap1 result where rc: "runCommand dev ap ?c = (ap1, result)"
        by (cases "runCommand dev ap ?c")
      have k1: "keeps ap ap1" using keeps_runCommand [of ap dev ?c] rc by simp
      have "keeps ap (stateOf (configureTeamsLoop dev fuel teams j ap1))" for j
        using k1 Suc.IH by (rule keeps_trans)
      then show ?thesis using True Inr rc by (simp split: sum.splits)
    qed
  next
    case False
    let ?ap1 = "fst (runCommand dev ap ''uci commit wireless'')"
    let ?ap2 = "fst (runCommand dev ?ap1 ''wifi reload'')"
    have k2: "keeps ap ?ap2"
      using keeps_runCommand [of ap dev "''uci commit wireless''"]
        keeps_runCommand [of ?ap1 dev "''wifi reload''"] by (rule keeps_trans)
    have "keeps ?ap2 (stateOf (next_step (updateTeamWifiStatuses dev ?ap2) (\<lambda>ap3 err.
              if err \<noteq> None then configureTeamsLoop dev fuel teams 0 ap3
              else (case configIsCorrectForTeams ap3 teams of
                      Inl p \<Rightarrow> Panics ap3 p
                    | Inr correct \<Rightarrow>
                        if correct then Returns ap3 ()
                        else configureTeamsLoop dev fuel teams 0 ap3))))"
      by (rule keeps_next_step [OF keeps_updateTeamWifiStatuses])
        (auto simp: keeps_refl Suc.IH split: sum.splits)
    with k2 show ?thesis using False by (simp add: Let_def keeps_trans [of ap ?ap2])
  qed
qed

lemma keeps_configureTeams: "keeps ap (stateOf (configureTeams dev fuel ap teams))"
  by (simp add: configureTeams_def keeps_configureTeamsLoop)

lemma keeps_handleTeamWifiConfiguration:
  "keeps ap (stateOf (handleTeamWifiConfiguration dev fuel ap teams))"
proof (cases "networkSecurityEnabled ap")
  case False
  then show ?thesis by (simp add: handleTeamWifiConfiguration_def keeps_refl)
next
  case True
  have "keeps ap (stateOf (next_step (updateTeamWifiStatuses dev ap) (\<lambda>ap1 err.
          case (if err \<noteq> None then Inr False else configIsCorrectForTeams ap1 teams) of
            Inl p \<Rightarrow> Panics ap1 p
          | Inr correct \<Rightarrow>
              if correct then Returns ap1 ()
              else if \<not> isVividType ap1 then
                next_step (configureTeams dev fuel ap1 [None, None, None, None, None, None])
                  (\<lambda>ap2 u. configureTeams dev fuel ap2 teams)
              else configureTeams dev fuel ap1 teams)))"
    by (rule keeps_next_step [OF keeps_updateTeamWifiStatuses])
      (auto simp: keeps_refl keeps_configureTeams split: sum.splits
        intro!: keeps_next_step)
  then show ?thesis using True by (simp add: handleTeamWifiConfiguration_def)
qed

lemma drain_all: "drain (length queue) request queue = Some (last (request # queue), [])"
  by (induction queue arbitrary: request) (simp_all add: receive_def)

lemma keeps_RunIteration: "keeps ap (stateOf (RunIteration dev fuel ap))"
proof (cases "case configRequestChan ap of None \<Rightarrow> None | Some queue \<Rightarrow> receive queue")
  case None
  have "keeps ap (stateOf (next_step (updateTeamWifiStatuses dev ap) (\<lambda>ap1 err1.
          next_step (updateTeamWifiBTU dev ap1) (\<lambda>ap2 err2. Returns ap2 ()))))"
    by (intro keeps_next_step keeps_updateTeamWifiStatuses keeps_updateTeamWifiBTU)
      (simp add: keeps_refl)
  with None show ?thesis by (simp add: RunIteration_def)
next
  case (Some a)
  obtain request queue where a: "a = (request, queue)" by (cases a)
  from Some a obtain q where q: "configRequestChan ap = Some q"
    by (auto split: option.splits)
  let ?ap' = "ap\<lparr>configRequestChan := Some []\<rparr>"
  have "keeps ap ?ap'" using q by (simp add: keeps_def)
  then have "keeps ap (stateOf (handleTeamWifiConfiguration dev fuel ?ap' (last (request # queue))))"
    using keeps_handleTeamWifiConfiguration by (rule keeps_trans)
  then show ?thesis using Some a by (simp add: RunIteration_def drain_all)
qed

lemma keeps_ConfigureAdminSettings: "keeps ap (fst (ConfigureAdminSettings dev ap))"
  by (simp add: ConfigureAdminSettings_def runCommand_def keeps_def Let_def split: sum.splits)

lemma keeps_ConfigureTeamWifi: "keeps ap (fst (ConfigureTeamWifi ap teams))"
  by (simp add: ConfigureTeamWifi_def keeps_def split: option.splits)

lemma keeps_perform: "\<not> isSetSettings op \<Longrightarrow> keeps ap (stateOf (perform dev fuel op ap))"
  by (cases op)
    (auto simp: keeps_ConfigureAdminSettings keeps_ConfigureTeamWifi keeps_RunIteration
      keeps_handleTeamWifiConfiguration keeps_configureTeams keeps_refl
      intro!: keeps_next_step keeps_updateTeamWifiStatuses keeps_updateTeamWifiBTU)




lemma chan_execute:
  "list_all (\<lambda>op. \<not> isSetSettings op) ops \<Longrightarrow> configRequestChan ap = None \<Longrightarrow>
   configRequestChan (stateOf (execute dev fuel ops ap)) = None"
proof (induction ops arbitrary: ap)
  case Nil
  then show ?case by simp
next
  case (Cons op ops)
  from Cons.prems have "keeps ap (stateOf (perform dev fuel op ap))"
    by (simp add: keeps_perform)
  with Cons.prems have c: "configRequestChan (stateOf (perform dev fuel op ap)) = None"
    by (simp add: keeps_def)
  show ?case
  proof (cases "perform dev fuel op ap")
    case (Returns ap' u)
    with c have "configRequestChan ap' = None" by simp
    with Cons.prems have "configRequestChan (stateOf (execute dev fuel ops ap')) = None"
      by (intro Cons.IH) simp_all
    with Returns show ?thesis by (simp add: next_step_def)
  qed (use c in \<open>simp_all add: next_step_def\<close>)
qed




lemma Itoa_position:
  "1 \<le> p \<Longrightarrow> p \<le> 6 \<Longrightarrow> Itoa p = [''123456'' ! nat (p - 1)]"
proof -
  assume "1 \<le> p" "p \<le> 6"
  then have "p = 1 \<or> p = 2 \<or> p = 3 \<or> p = 4 \<or> p = 5 \<or> p = 6" by arith
  then show ?thesis by (elim disjE) (simp_all add: Itoa_def digitChar_def)
qed

lemma Itoa_position_inj:
  "1 \<le> p \<Longrightarrow> p \<le> 6 \<Longrightarrow> 1 \<le> q \<Longrightarrow> q \<le> 6 \<Longrightarrow> Itoa p = Itoa q \<Longrightarrow> p = q"
proof -
  assume a: "1 \<le> p" "p \<le> 6" "1 \<le> q" "q \<le> 6" and e: "Itoa p = Itoa q"
  from a have p: "p = 1 \<or> p = 2 \<or> p = 3 \<or> p = 4 \<or> p = 5 \<or> p = 6" by arith
  from a have q: "q = 1 \<or> q = 2 \<or> q = 3 \<or> q = 4 \<or> q = 5 \<or> q = 6" by arith
  from e a have "''123456'' ! nat (p - 1) = ''123456'' ! nat (q - 1)"
    by (simp add: Itoa_position)
  with p q show ?thesis by (elim disjE) simp_all
qed

subsection \<open>Auxiliary facts about the parsers\<close>






text \<open>
  The matchers find the matches of the regular expressions: a match of the first
  expression at a position is unique; of the second, the numerator is unique and the
  matcher returns the longest denominator, as the greedy \<^verbatim>\<open>+\<close> does.
\<close>

lemma not_name_chars: "\<not> isNameChar (CHR 0x22)" "\<not> isNameChar CHR ''/''"
  by (simp_all add: isNameChar_def isWordChar_def less_eq_char_def)

lemma span_run:
  "list_all P xs \<Longrightarrow> \<not> P c \<Longrightarrow>
   takeWhile P (xs @ c # rest) = xs \<and> dropWhile P (xs @ c # rest) = c # rest"
  by (induction xs) simp_all

lemma span_split:
  "dropWhile P t = c # rest \<Longrightarrow> takeWhile P t @ c # rest = t"
  by (induction t) (auto split: if_splits)

lemma matchEssid_iff:
  "matchEssid s = Some (whole, groups) \<longleftrightarrow> (\<exists>name. groups = [name] \<and> essidMatchAt s whole name)"
proof
  assume m: "matchEssid s = Some (whole, groups)"
  then have p: "prefix essidLiteral s" by (simp add: matchEssid_def split: if_splits)
  define t where "t = drop (length essidLiteral) s"
  from p have s: "s = essidLiteral @ t" by (auto simp: t_def prefix_def)
  from m p obtain rest where d: "dropWhile isNameChar t = CHR 0x22 # rest"
    and w: "whole = essidLiteral @ takeWhile isNameChar t @ [CHR 0x22]"
    and g: "groups = [takeWhile isNameChar t]"
    by (auto simp: matchEssid_def Let_def t_def split: list.splits if_splits)
  from d have "takeWhile isNameChar t @ CHR 0x22 # rest = t" by (rule span_split)
  with s have "s = whole @ rest" using w by simp
  then have "prefix whole s" by simp
  moreover have "list_all isNameChar (takeWhile isNameChar t)"
    by (simp add: list_all_iff) (meson set_takeWhileD)
  ultimately show "\<exists>name. groups = [name] \<and> essidMatchAt s whole name"
    using g w by (simp add: essidMatchAt_def)
next
  assume "\<exists>name. groups = [name] \<and> essidMatchAt s whole name"
  then obtain name where g: "groups = [name]" and a: "list_all isNameChar name"
    and w: "whole = essidLiteral @ name @ [CHR 0x22]" and p: "prefix whole s"
    by (auto simp: essidMatchAt_def)
  from p obtain rest where s: "s = whole @ rest" by (auto simp: prefix_def)
  with w have s': "s = essidLiteral @ (name @ CHR 0x22 # rest)" by simp
  have "takeWhile isNameChar (name @ CHR 0x22 # rest) = name \<and>
        dropWhile isNameChar (name @ CHR 0x22 # rest) = CHR 0x22 # rest"
    using a not_name_chars(1) by (rule span_run)
  then show "matchEssid s = Some (whole, groups)"
    unfolding s' by (simp add: matchEssid_def g w)
qed

lemma matchLinkQuality_sound:
  "matchLinkQuality s = Some (whole, groups) \<Longrightarrow>
   \<exists>numerator denominator.
     groups = [numerator, denominator] \<and> linkQualityMatchAt s whole numerator denominator"
proof -
  assume m: "matchLinkQuality s = Some (whole, groups)"
  then have p: "prefix linkQualityLiteral s" by (simp add: matchLinkQuality_def split: if_splits)
  define t where "t = drop (length linkQualityLiteral) s"
  from p have s: "s = linkQualityLiteral @ t" by (auto simp: t_def prefix_def)
  from m p obtain rest where d: "dropWhile isNameChar t = CHR ''/'' # rest"
    and n: "takeWhile isNameChar t \<noteq> []" and dn: "takeWhile isNameChar rest \<noteq> []"
    and w: "whole = linkQualityLiteral @ takeWhile isNameChar t @ ''/'' @ takeWhile isNameChar rest"
    and g: "groups = [takeWhile isNameChar t, takeWhile isNameChar rest]"
    by (auto simp: matchLinkQuality_def Let_def t_def split: list.splits if_splits)
  from d have "takeWhile isNameChar t @ CHR ''/'' # rest = t" by (rule span_split)
  then have "takeWhile isNameChar t @ ''/'' @ takeWhile isNameChar rest @ dropWhile isNameChar rest = t"
    by simp
  with s w have "s = whole @ dropWhile isNameChar rest" by simp
  then have "prefix whole s" by simp
  moreover have "list_all isNameChar (takeWhile isNameChar u)" for u
    by (simp add: list_all_iff) (meson set_takeWhileD)
  ultimately show ?thesis using g w n dn by (simp add: linkQualityMatchAt_def)
qed

lemma matchLinkQuality_greedy:
  "linkQualityMatchAt s whole' numerator' denominator' \<Longrightarrow>
   \<exists>whole denominator.
     matchLinkQuality s = Some (whole, [numerator', denominator]) \<and>
     prefix denominator' denominator"
proof -
  assume "linkQualityMatchAt s whole' numerator' denominator'"
  then have n: "numerator' \<noteq> []" and d: "denominator' \<noteq> []"
    and an: "list_all isNameChar numerator'" and ad: "list_all isNameChar denominator'"
    and w: "whole' = linkQualityLiteral @ numerator' @ ''/'' @ denominator'"
    and p: "prefix whole' s"
    by (auto simp: linkQualityMatchAt_def)
  from p obtain rest where s: "s = whole' @ rest" by (auto simp: prefix_def)
  with w have s': "s = linkQualityLiteral @ (numerator' @ CHR ''/'' # (denominator' @ rest))"
    by simp
  have sp: "takeWhile isNameChar (numerator' @ CHR ''/'' # (denominator' @ rest)) = numerator' \<and>
        dropWhile isNameChar (numerator' @ CHR ''/'' # (denominator' @ rest))
          = CHR ''/'' # (denominator' @ rest)"
    using an not_name_chars(2) by (rule span_run)
  have tk: "takeWhile isNameChar (denominator' @ rest) = denominator' @ takeWhile isNameChar rest"
    using ad by (simp add: takeWhile_append2 list_all_iff)
  show ?thesis
    unfolding s' using sp tk n d by (simp add: matchLinkQuality_def Let_def)
qed

lemma FindAllStringSubmatch_groups:
  "(\<forall>t whole groups. re t = Some (whole, groups) \<longrightarrow> length groups = k) \<Longrightarrow>
   m \<in> set (FindAllStringSubmatch re s) \<Longrightarrow> length m = Suc k"
proof (induction re s rule: FindAllStringSubmatch.induct)
  case (1 re s)
  note groups = "1.prems"(1) and m = "1.prems"(2)
  show ?case
  proof (cases "s = []")
    case True
    with m show ?thesis by simp
  next
    case ne: False
    show ?thesis
    proof (cases "re s")
      case None
      with ne m have "m \<in> set (FindAllStringSubmatch re (tl s))" by simp
      with ne None groups show ?thesis by (intro "1.IH"(1)) simp_all
    next
      case (Some a)
      obtain whole groups where a: "a = (whole, groups)" by (cases a)
      from ne Some a m
      have "m = whole # groups \<or>
            m \<in> set (FindAllStringSubmatch re (drop (max 1 (length whole)) s))"
        by simp
      then show ?thesis
      proof
        assume mw: "m = whole # groups"
        from Some a have "re s = Some (whole, groups)" by simp
        with groups have "length groups = k" by blast
        with mw show ?thesis by simp
      next
        assume "m \<in> set (FindAllStringSubmatch re (drop (max 1 (length whole)) s))"
        with ne Some a groups show ?thesis by (intro "1.IH"(2)) simp_all
      qed
    qed
  qed
qed

lemma matchEssid_groups: "matchEssid t = Some (whole, groups) \<Longrightarrow> length groups = 1"
  by (auto simp: matchEssid_def Let_def split: if_splits list.splits)

lemma matchLinkQuality_groups: "matchLinkQuality t = Some (whole, groups) \<Longrightarrow> length groups = 2"
  by (auto simp: matchLinkQuality_def Let_def split: if_splits list.splits)

lemma decodeLoop_value:
  assumes "\<And>m. m \<in> set ssids \<Longrightarrow> 2 \<le> length m"
    and "\<And>m. m \<in> set linkQualities \<Longrightarrow> 2 \<le> length m"
  shows "i + length statuses \<le> length ssids \<Longrightarrow> i + length statuses \<le> length linkQualities \<Longrightarrow>
    decodeLoop ssids linkQualities i statuses =
      Inr (map (\<lambda>(j, status). status\<lparr>TeamId := fst (Atoi (ssids ! j ! 1)),
                                     RadioLinked := (linkQualities ! j ! 1 \<noteq> ''unknown'')\<rparr>)
             (zip [i ..< i + length statuses] statuses))"
proof (induction statuses arbitrary: i)
  case Nil
  show ?case by simp
next
  case (Cons status statuses)
  from Cons.prems have i: "i < length ssids" "i < length linkQualities" by simp_all
  then have "2 \<le> length (ssids ! i)" "2 \<le> length (linkQualities ! i)"
    using assms by simp_all
  then have g: "1 < length (ssids ! i)" "1 < length (linkQualities ! i)" by simp_all
  have rest: "decodeLoop ssids linkQualities (Suc i) statuses =
      Inr (map (\<lambda>(j, status). status\<lparr>TeamId := fst (Atoi (ssids ! j ! 1)),
                                     RadioLinked := (linkQualities ! j ! 1 \<noteq> ''unknown'')\<rparr>)
             (zip [Suc i ..< Suc i + length statuses] statuses))"
    using Cons.prems by (intro Cons.IH) simp_all
  have "[i ..< i + length (status # statuses)] = i # [Suc i ..< Suc i + length statuses]"
    by (subst upt_rec) simp
  then show ?case using i g rest by (simp add: index_def andThen_def)
qed




lemma decodeWifiInfo_fields:
  "length statuses = 6 \<Longrightarrow>
   ssids = FindAllStringSubmatch matchEssid wifiInfo \<Longrightarrow>
   linkQualities = FindAllStringSubmatch matchLinkQuality wifiInfo \<Longrightarrow>
   (length ssids < 6 \<or> length linkQualities < 6 \<longrightarrow>
      decodeWifiInfo wifiInfo statuses = Inr (statuses, Some (MalformedStatus (length ssids)))) \<and>
   (6 \<le> length ssids \<and> 6 \<le> length linkQualities \<longrightarrow>
      decodeWifiInfo wifiInfo statuses =
        Inr (map (\<lambda>i. (statuses ! i)\<lparr>TeamId := fst (Atoi (ssids ! i ! 1)),
                                    RadioLinked := (linkQualities ! i ! 1 \<noteq> ''unknown'')\<rparr>)
               [0 ..< 6], None))"
proof (intro conjI impI)
  assume "ssids = FindAllStringSubmatch matchEssid wifiInfo"
    "linkQualities = FindAllStringSubmatch matchLinkQuality wifiInfo"
    "length ssids < 6 \<or> length linkQualities < 6"
  then show "decodeWifiInfo wifiInfo statuses = Inr (statuses, Some (MalformedStatus (length ssids)))"
    by (auto simp: decodeWifiInfo_def Let_def)
next
  assume len: "length statuses = 6"
    and s: "ssids = FindAllStringSubmatch matchEssid wifiInfo"
    and l: "linkQualities = FindAllStringSubmatch matchLinkQuality wifiInfo"
    and six: "6 \<le> length ssids \<and> 6 \<le> length linkQualities"
  have gs: "2 \<le> length m" if "m \<in> set ssids" for m
    using FindAllStringSubmatch_groups [of matchEssid 1 m wifiInfo] matchEssid_groups that s
    by auto
  have gl: "2 \<le> length m" if "m \<in> set linkQualities" for m
    using FindAllStringSubmatch_groups [of matchLinkQuality 2 m wifiInfo] matchLinkQuality_groups that l
    by auto
  have "decodeLoop ssids linkQualities 0 statuses =
      Inr (map (\<lambda>(j, status). status\<lparr>TeamId := fst (Atoi (ssids ! j ! 1)),
                                     RadioLinked := (linkQualities ! j ! 1 \<noteq> ''unknown'')\<rparr>)
             (zip [0 ..< 0 + length statuses] statuses))"
    using six len by (intro decodeLoop_value gs gl) simp_all
  moreover have "map (\<lambda>(j, status). status\<lparr>TeamId := fst (Atoi (ssids ! j ! 1)),
                                     RadioLinked := (linkQualities ! j ! 1 \<noteq> ''unknown'')\<rparr>)
             (zip [0 ..< 0 + length statuses] statuses)
      = map (\<lambda>i. (statuses ! i)\<lparr>TeamId := fst (Atoi (ssids ! i ! 1)),
                                    RadioLinked := (linkQualities ! i ! 1 \<noteq> ''unknown'')\<rparr>)
               [0 ..< 6]"
    using len by (intro nth_equalityI) simp_all
  ultimately show "decodeWifiInfo wifiInfo statuses =
        Inr (map (\<lambda>i. (statuses ! i)\<lparr>TeamId := fst (Atoi (ssids ! i ! 1)),
                                    RadioLinked := (linkQualities ! i ! 1 \<noteq> ''unknown'')\<rparr>)
               [0 ..< 6], None)"
    using six s l by (simp add: decodeWifiInfo_def Let_def)
qed


lemma sampleIwinfo_decoded:
  "decodeWifiInfo sampleIwinfo (replicate 6 zeroTeamWifiStatus) =
     Inr (\<lparr>TeamId = 254, RadioLinked = True, MBits = 0\<rparr> #
          replicate 5 \<lparr>TeamId = 0, RadioLinked = False, MBits = 0\<rparr>, None)"
  by code_simp

lemma sampleIwinfo_ssids:
  "map (\<lambda>m. m ! 1) (FindAllStringSubmatch matchEssid sampleIwinfo) =
     [''254'', ''no-team-2'', ''no-team-3'', ''no-team-4'', ''no-team-5'', ''no-team-6'']"
  by code_simp

lemma sampleIwinfo_linkQualities:
  "map (\<lambda>m. m ! 1) (FindAllStringSubmatch matchLinkQuality sampleIwinfo) =
     [''60'', ''unknown'', ''unknown'', ''unknown'', ''unknown'', ''unknown'']"
  by code_simp

lemma shortIwinfo_decoded:
  "length (FindAllStringSubmatch matchEssid shortIwinfo) = 5 \<and>
   decodeWifiInfo shortIwinfo (replicate 6 zeroTeamWifiStatus) =
     Inr (replicate 6 zeroTeamWifiStatus, Some (MalformedStatus 5))"
  by code_simp


subsection \<open>The claims\<close>



text \<open>
  C2. For a status array of six records: \<^verbatim>\<open>decodeWifiInfo\<close> returns the error
  \<open>MalformedStatus\<close>, and the array as it was, exactly when it finds fewer than six
  names or fewer than six link qualities; otherwise it returns no error and six
  records, record \<open>i\<close> with the team number read from the \<open>i\<close>-th name and the link
  flag read from the \<open>i\<close>-th link quality (the bandwidth of the record is kept).
\<close>

theorem decodeWifiInfo_six:
  "length statuses = 6 \<Longrightarrow>
   ssids = FindAllStringSubmatch matchEssid wifiInfo \<Longrightarrow>
   linkQualities = FindAllStringSubmatch matchLinkQuality wifiInfo \<Longrightarrow>
   (length ssids < 6 \<or> length linkQualities < 6 \<longrightarrow>
      decodeWifiInfo wifiInfo statuses = Inr (statuses, Some (MalformedStatus (length ssids)))) \<and>
   (6 \<le> length ssids \<and> 6 \<le> length linkQualities \<longrightarrow>
      decodeWifiInfo wifiInfo statuses =
        Inr (map (\<lambda>i. (statuses ! i)\<lparr>TeamId := fst (Atoi (ssids ! i ! 1)),
                                    RadioLinked := (linkQualities ! i ! 1 \<noteq> ''unknown'')\<rparr>)
               [0 ..< 6], None))"
  by (rule decodeWifiInfo_fields)

theorem decodeWifiInfo_six_witness:
  "length (replicate 6 zeroTeamWifiStatus) = 6 \<and>
   6 \<le> length (FindAllStringSubmatch matchEssid sampleIwinfo) \<and>
   6 \<le> length (FindAllStringSubmatch matchLinkQuality sampleIwinfo) \<and>
   decodeWifiInfo sampleIwinfo (replicate 6 zeroTeamWifiStatus) =
     Inr (\<lparr>TeamId = 254, RadioLinked = True, MBits = 0\<rparr> #
          replicate 5 \<lparr>TeamId = 0, RadioLinked = False, MBits = 0\<rparr>, None) \<and>
   length (FindAllStringSubmatch matchEssid shortIwinfo) < 6 \<and>
   decodeWifiInfo shortIwinfo (replicate 6 zeroTeamWifiStatus) =
     Inr (replicate 6 zeroTeamWifiStatus, Some (MalformedStatus 5))"
proof -
  have n: "length (replicate 6 zeroTeamWifiStatus) = 6" by simp
  have a: "length (map (\<lambda>m. m ! 1) (FindAllStringSubmatch matchEssid sampleIwinfo)) = 6"
    by (simp only: sampleIwinfo_ssids) simp
  have b: "length (map (\<lambda>m. m ! 1) (FindAllStringSubmatch matchLinkQuality sampleIwinfo)) = 6"
    by (simp only: sampleIwinfo_linkQualities) simp
  show ?thesis
    using a b sampleIwinfo_decoded shortIwinfo_decoded
      decodeWifiInfo_six [OF n refl refl, of sampleIwinfo]
      decodeWifiInfo_six [OF n refl refl, of shortIwinfo]
    by simp
qed




text \<open>
  C4. A position below 1 or above 6 gives the error \<open>InvalidPosition\<close> and the empty
  string, whatever the team is. For a position from 1 to 6 and no team the function
  succeeds; the network name and the key are both \<^verbatim>\<open>no-team-\<close> followed by the digit of
  the position, every command names the interface of that position, and two different
  positions have different placeholders.
\<close>

theorem generateTeamAccessPointConfig_position:
  "(position < 1 \<or> 6 < position \<longrightarrow>
      generateTeamAccessPointConfig ap team position = ([], Some (InvalidPosition position))) \<and>
   (1 \<le> p \<and> p \<le> 6 \<longrightarrow>
      Itoa p = [''123456'' ! nat (p - 1)] \<and>
      generateTeamAccessPointConfig ap None p =
        (Join ([''set wireless.@wifi-iface['' @ Itoa p @ ''].disabled='' @ quoted ''0'',
                ''set wireless.@wifi-iface['' @ Itoa p @ ''].ssid='' @ quoted (''no-team-'' @ Itoa p),
                ''set wireless.@wifi-iface['' @ Itoa p @ ''].key='' @ quoted (''no-team-'' @ Itoa p)]
               @ (if isVividType ap
                  then [''set wireless.@wifi-iface['' @ Itoa p @ ''].sae_password=''
                        @ quoted (''no-team-'' @ Itoa p)]
                  else []))
           [CHR 0x0A], None)) \<and>
   (1 \<le> p \<and> p \<le> 6 \<and> 1 \<le> q \<and> q \<le> 6 \<and> p \<noteq> q \<longrightarrow>
      ''no-team-'' @ Itoa p \<noteq> ''no-team-'' @ Itoa q)"
proof (intro conjI impI)
  assume "position < 1 \<or> 6 < position"
  then show "generateTeamAccessPointConfig ap team position = ([], Some (InvalidPosition position))"
    by (auto simp: generateTeamAccessPointConfig_def)
next
  assume "1 \<le> p \<and> p \<le> 6"
  then show "Itoa p = [''123456'' ! nat (p - 1)]" by (simp add: Itoa_position)
next
  assume "1 \<le> p \<and> p \<le> 6"
  then show "generateTeamAccessPointConfig ap None p =
        (Join ([''set wireless.@wifi-iface['' @ Itoa p @ ''].disabled='' @ quoted ''0'',
                ''set wireless.@wifi-iface['' @ Itoa p @ ''].ssid='' @ quoted (''no-team-'' @ Itoa p),
                ''set wireless.@wifi-iface['' @ Itoa p @ ''].key='' @ quoted (''no-team-'' @ Itoa p)]
               @ (if isVividType ap
                  then [''set wireless.@wifi-iface['' @ Itoa p @ ''].sae_password=''
                        @ quoted (''no-team-'' @ Itoa p)]
                  else []))
           [CHR 0x0A], None)"
    by (simp add: generateTeamAccessPointConfig_def teamCommands_def Let_def)
next
  assume "1 \<le> p \<and> p \<le> 6 \<and> 1 \<le> q \<and> q \<le> 6 \<and> p \<noteq> q"
  then show "''no-team-'' @ Itoa p \<noteq> ''no-team-'' @ Itoa q"
    using Itoa_position_inj [of p q] by auto
qed

theorem generateTeamAccessPointConfig_position_witness:
  "generateTeamAccessPointConfig zeroAccessPoint None 0 = ([], Some (InvalidPosition 0)) \<and>
   generateTeamAccessPointConfig zeroAccessPoint (Some team254) 7
     = ([], Some (InvalidPosition 7)) \<and>
   generateTeamAccessPointConfig zeroAccessPoint None 3 =
     (''set wireless.@wifi-iface[3].disabled='' @ [CHR 0x27] @ ''0'' @ [CHR 0x27, CHR 0x0A] @
      ''set wireless.@wifi-iface[3].ssid='' @ [CHR 0x27] @ ''no-team-3'' @ [CHR 0x27, CHR 0x0A] @
      ''set wireless.@wifi-iface[3].key='' @ [CHR 0x27] @ ''no-team-3'' @ [CHR 0x27], None) \<and>
   ''no-team-'' @ Itoa 3 \<noteq> ''no-team-'' @ Itoa 4"
  using generateTeamAccessPointConfig_position [of 0 zeroAccessPoint None 3 4]
    generateTeamAccessPointConfig_position [of 7 zeroAccessPoint "Some team254" 3 4]
  by (simp add: zeroAccessPoint_def quoted_def)

text \<open>
  C5. For a team that is not \<^verbatim>\<open>nil\<close> and a position from 1 to 6, the error is
  \<open>InvalidCredential\<close> exactly when the key has fewer than 8 or more than 63 bytes, and
  there is no error exactly when it has 8 to 63 bytes: keys of 7 and of 64 bytes are
  rejected with the empty string, keys of 8 and of 63 bytes give the commands with the
  team's number as the network name and the key as it is.
\<close>

theorem generateTeamAccessPointConfig_passphrase:
  "1 \<le> position \<and> position \<le> 6 \<Longrightarrow>
   (snd (generateTeamAccessPointConfig ap (Some t) position)
      = Some (InvalidCredential (WpaKey t) (Id_team t))
    \<longleftrightarrow> length (WpaKey t) < 8 \<or> 63 < length (WpaKey t)) \<and>
   (snd (generateTeamAccessPointConfig ap (Some t) position) = None
    \<longleftrightarrow> 8 \<le> length (WpaKey t) \<and> length (WpaKey t) \<le> 63) \<and>
   (length (WpaKey t) = 7 \<or> length (WpaKey t) = 64 \<longrightarrow>
      generateTeamAccessPointConfig ap (Some t) position
        = ([], Some (InvalidCredential (WpaKey t) (Id_team t)))) \<and>
   (length (WpaKey t) = 8 \<or> length (WpaKey t) = 63 \<longrightarrow>
      generateTeamAccessPointConfig ap (Some t) position =
        (Join ([''set wireless.@wifi-iface['' @ Itoa position @ ''].disabled='' @ quoted ''0'',
                ''set wireless.@wifi-iface['' @ Itoa position @ ''].ssid=''
                  @ quoted (Itoa (Id_team t)),
                ''set wireless.@wifi-iface['' @ Itoa position @ ''].key='' @ quoted (WpaKey t)]
               @ (if isVividType ap
                  then [''set wireless.@wifi-iface['' @ Itoa position @ ''].sae_password=''
                        @ quoted (WpaKey t)]
                  else []))
           [CHR 0x0A], None))"
  by (auto simp: generateTeamAccessPointConfig_def teamCommands_def Let_def)

theorem generateTeamAccessPointConfig_passphrase_witness:
  "(1::int) \<le> 2 \<and> (2::int) \<le> 6 \<and>
   snd (generateTeamAccessPointConfig zeroAccessPoint
          (Some \<lparr>Id_team = 254, WpaKey = ''1234567''\<rparr>) 2)
     = Some (InvalidCredential ''1234567'' 254) \<and>
   snd (generateTeamAccessPointConfig zeroAccessPoint
          (Some \<lparr>Id_team = 254, WpaKey = ''12345678''\<rparr>) 2) = None \<and>
   snd (generateTeamAccessPointConfig zeroAccessPoint
          (Some \<lparr>Id_team = 254, WpaKey = replicate 63 CHR ''k''\<rparr>) 2) = None \<and>
   snd (generateTeamAccessPointConfig zeroAccessPoint
          (Some \<lparr>Id_team = 254, WpaKey = replicate 64 CHR ''k''\<rparr>) 2)
     = Some (InvalidCredential (replicate 64 CHR ''k'') 254)"
proof -
  have h: "(1::int) \<le> 2 \<and> (2::int) \<le> 6" by simp
  show ?thesis
    using h
      generateTeamAccessPointConfig_passphrase [OF h, of zeroAccessPoint
        "\<lparr>Id_team = 254, WpaKey = ''1234567''\<rparr>"]
      generateTeamAccessPointConfig_passphrase [OF h, of zeroAccessPoint
        "\<lparr>Id_team = 254, WpaKey = ''12345678''\<rparr>"]
      generateTeamAccessPointConfig_passphrase [OF h, of zeroAccessPoint
        "\<lparr>Id_team = 254, WpaKey = replicate 63 CHR ''k''\<rparr>"]
      generateTeamAccessPointConfig_passphrase [OF h, of zeroAccessPoint
        "\<lparr>Id_team = 254, WpaKey = replicate 64 CHR ''k''\<rparr>"]
    by simp
qed




text \<open>
  C7. \<^verbatim>\<open>ConfigureTeamWifi\<close> has no way to wait: it is a function that returns for
  every state. On a channel that holds fewer than 10 requests it appends the assignment
  and returns no error; on a channel that holds 10 it changes nothing and returns
  \<open>QueueFull\<close>. A pass of the loop of \<^verbatim>\<open>Run\<close> that finds requests in the channel empties
  the channel and hands the last of them, and no other, to
  \<^verbatim>\<open>handleTeamWifiConfiguration\<close>.
\<close>

theorem ConfigureTeamWifi_queue:
  "configRequestChan ap = Some queue \<Longrightarrow>
   (length queue < 10 \<longrightarrow>
      ConfigureTeamWifi ap teams = (ap\<lparr>configRequestChan := Some (queue @ [teams])\<rparr>, None)) \<and>
   (10 \<le> length queue \<longrightarrow> ConfigureTeamWifi ap teams = (ap, Some QueueFull)) \<and>
   (queue \<noteq> [] \<longrightarrow>
      RunIteration dev fuel ap =
        handleTeamWifiConfiguration dev fuel (ap\<lparr>configRequestChan := Some []\<rparr>) (last queue))"
  by (cases queue)
    (simp_all add: ConfigureTeamWifi_def accessPointRequestBufferSize_def RunIteration_def
      receive_def drain_all)

theorem ConfigureTeamWifi_queue_witness:
  "configRequestChan (zeroAccessPoint\<lparr>configRequestChan := Some [teamsA, teamsB, teamsC]\<rparr>)
     = Some [teamsA, teamsB, teamsC] \<and>
   ConfigureTeamWifi (zeroAccessPoint\<lparr>configRequestChan := Some [teamsA, teamsB, teamsC]\<rparr>) noTeams
     = (zeroAccessPoint\<lparr>configRequestChan := Some [teamsA, teamsB, teamsC, noTeams]\<rparr>, None) \<and>
   RunIteration deadDevice 20
       (zeroAccessPoint\<lparr>configRequestChan := Some [teamsA, teamsB, teamsC]\<rparr>)
     = handleTeamWifiConfiguration deadDevice 20
         (zeroAccessPoint\<lparr>configRequestChan := Some []\<rparr>) teamsC \<and>
   ConfigureTeamWifi (zeroAccessPoint\<lparr>configRequestChan := Some (replicate 10 teamsA)\<rparr>) teamsB
     = (zeroAccessPoint\<lparr>configRequestChan := Some (replicate 10 teamsA)\<rparr>, Some QueueFull)"
  using ConfigureTeamWifi_queue
      [of "zeroAccessPoint\<lparr>configRequestChan := Some [teamsA, teamsB, teamsC]\<rparr>"
        "[teamsA, teamsB, teamsC]" noTeams deadDevice 20]
    ConfigureTeamWifi_queue
      [of "zeroAccessPoint\<lparr>configRequestChan := Some (replicate 10 teamsA)\<rparr>"
        "replicate 10 teamsA" teamsB deadDevice 20]
  by simp

text \<open>
  C8. With \<^verbatim>\<open>networkSecurityEnabled\<close> false, \<^verbatim>\<open>ConfigureAdminSettings\<close>,
  \<^verbatim>\<open>handleTeamWifiConfiguration\<close>, \<^verbatim>\<open>updateTeamWifiStatuses\<close> and
  \<^verbatim>\<open>updateTeamWifiBTU\<close> return at once, the ones that return an error with \<^verbatim>\<open>nil\<close>,
  and leave the whole state as it was: the status array, the flag, and the log of the
  commands passed to \<^verbatim>\<open>runCommand\<close>, so no command was run.
\<close>

theorem no_op_without_security:
  "\<not> networkSecurityEnabled ap \<Longrightarrow>
   ConfigureAdminSettings dev ap = (ap, None) \<and>
   handleTeamWifiConfiguration dev fuel ap teams = Returns ap () \<and>
   updateTeamWifiStatuses dev ap = Returns ap None \<and>
   updateTeamWifiBTU dev ap = Returns ap None"
  by (simp add: ConfigureAdminSettings_def handleTeamWifiConfiguration_def
      updateTeamWifiStatuses_def updateTeamWifiBTU_def)

theorem no_op_without_security_witness:
  "\<not> networkSecurityEnabled zeroAccessPoint \<and>
   ConfigureAdminSettings sampleDevice zeroAccessPoint = (zeroAccessPoint, None) \<and>
   handleTeamWifiConfiguration sampleDevice 20 zeroAccessPoint teamsA
     = Returns zeroAccessPoint () \<and>
   updateTeamWifiStatuses sampleDevice zeroAccessPoint = Returns zeroAccessPoint None \<and>
   updateTeamWifiBTU sampleDevice zeroAccessPoint = Returns zeroAccessPoint None \<and>
   commandLog zeroAccessPoint = []"
proof -
  have z: "\<not> networkSecurityEnabled zeroAccessPoint" by (simp add: zeroAccessPoint_def)
  show ?thesis
    using z no_op_without_security [OF z, of sampleDevice 20 teamsA]
    by (simp add: zeroAccessPoint_def)
qed

text \<open>
  C9 does not hold of the code: \<^verbatim>\<open>parseBtu\<close> checks the number of pieces but not the
  number of fields of the two pieces it reads. On an output cut off inside its last
  line, seven pieces with two fields in the last, it panics at \<^verbatim>\<open>lastCnt[3]\<close>.
\<close>

theorem parseBtu_truncated_panics:
  "length (Split truncatedDump ''],'') = 7 \<and>
   parseBtu truncatedDump = Inl (IndexOutOfRange 3 2)"
  by code_simp

text \<open>
  C10. While the channel is \<^verbatim>\<open>nil\<close>, \<^verbatim>\<open>ConfigureTeamWifi\<close> returns \<open>QueueFull\<close> and
  leaves the state as it was, so the assignment is stored nowhere. The channel of a new
  \<^verbatim>\<open>AccessPoint\<close> is \<^verbatim>\<open>nil\<close> and stays so through every sequence of methods without
  \<^verbatim>\<open>SetSettings\<close>: after any such sequence the call returns \<open>QueueFull\<close>.
\<close>

theorem ConfigureTeamWifi_nil_channel:
  "(configRequestChan ap = None \<longrightarrow> ConfigureTeamWifi ap teams = (ap, Some QueueFull)) \<and>
   (list_all (\<lambda>op. \<not> isSetSettings op) ops \<longrightarrow>
      ConfigureTeamWifi (stateOf (execute dev fuel ops zeroAccessPoint)) teams =
        (stateOf (execute dev fuel ops zeroAccessPoint), Some QueueFull))"
proof -
  have "configRequestChan zeroAccessPoint = None" by (simp add: zeroAccessPoint_def)
  then show ?thesis using chan_execute [of ops zeroAccessPoint dev fuel]
    by (simp add: ConfigureTeamWifi_def)
qed

theorem ConfigureTeamWifi_nil_channel_witness:
  "configRequestChan zeroAccessPoint = None \<and>
   ConfigureTeamWifi zeroAccessPoint teamsA = (zeroAccessPoint, Some QueueFull) \<and>
   list_all (\<lambda>op. \<not> isSetSettings op)
     [OpConfigureTeamWifi teamsA, OpConfigureAdminSettings, OpRunIteration] \<and>
   snd (ConfigureTeamWifi
     (stateOf (execute sampleDevice 20
        [OpConfigureTeamWifi teamsA, OpConfigureAdminSettings, OpRunIteration] zeroAccessPoint))
     teamsB) = Some QueueFull"
proof -
  have z: "configRequestChan zeroAccessPoint = None" by (simp add: zeroAccessPoint_def)
  show ?thesis
    using z
      ConfigureTeamWifi_nil_channel [of zeroAccessPoint teamsA "[]" sampleDevice 20]
      ConfigureTeamWifi_nil_channel [of zeroAccessPoint teamsB
        "[OpConfigureTeamWifi teamsA, OpConfigureAdminSettings, OpRunIteration]" sampleDevice 20]
    by simp
qed

end
